theory Spec2Isabelle
  imports Complex_Main
begin

section \<open>Values and exceptions of the Python program\<close>

text \<open>
  The program computes with Python floats.  A finite float is modelled by the real number
  it denotes (rounding and overflow are not part of the model); the special floats
  \<open>nan\<close>, \<open>inf\<close> and \<open>-inf\<close> are kept as values of their own, because the program
  tests for them (\<open>np.isnan\<close>, \<open>np.isinf\<close>).  The user's function \<open>f\<close> is a Python
  callable: a call either raises an exception or returns \<open>None\<close> or a float.
\<close>

datatype exn = ValueError | TypeError | ZeroDivisionError | OverflowError | IndexError

datatype pyfloat = Fin real | PInf | MInf | NaN

datatype pyval = PyNone | PyFloat pyfloat

type_synonym callable = "real \<Rightarrow> exn + pyval"

fun fneg :: "pyfloat \<Rightarrow> pyfloat" where
  "fneg (Fin x) = Fin (- x)"
| "fneg PInf = MInf"
| "fneg MInf = PInf"
| "fneg NaN = NaN"

fun fabs :: "pyfloat \<Rightarrow> pyfloat" where
  "fabs (Fin x) = Fin \<bar>x\<bar>"
| "fabs PInf = PInf"
| "fabs MInf = PInf"
| "fabs NaN = NaN"

fun fadd :: "pyfloat \<Rightarrow> pyfloat \<Rightarrow> pyfloat" where
  "fadd (Fin x) (Fin y) = Fin (x + y)"
| "fadd NaN _ = NaN"
| "fadd _ NaN = NaN"
| "fadd PInf MInf = NaN"
| "fadd MInf PInf = NaN"
| "fadd PInf _ = PInf"
| "fadd _ PInf = PInf"
| "fadd MInf _ = MInf"
| "fadd _ MInf = MInf"

definition fsub :: "pyfloat \<Rightarrow> pyfloat \<Rightarrow> pyfloat" where
  "fsub x y = fadd x (fneg y)"

text \<open>The sign of an infinite product; a zero factor gives \<open>nan\<close>.\<close>

definition inf_por :: "bool \<Rightarrow> real \<Rightarrow> pyfloat" where
  "inf_por positivo y =
     (if y = 0 then NaN else if (0 < y) = positivo then PInf else MInf)"

fun fmul :: "pyfloat \<Rightarrow> pyfloat \<Rightarrow> pyfloat" where
  "fmul (Fin x) (Fin y) = Fin (x * y)"
| "fmul NaN _ = NaN"
| "fmul _ NaN = NaN"
| "fmul PInf (Fin y) = inf_por True y"
| "fmul MInf (Fin y) = inf_por False y"
| "fmul (Fin x) PInf = inf_por True x"
| "fmul (Fin x) MInf = inf_por False x"
| "fmul PInf PInf = PInf"
| "fmul MInf MInf = PInf"
| "fmul PInf MInf = MInf"
| "fmul MInf PInf = MInf"

text \<open>
  Division as numpy and IEEE arithmetic do it (no exception).  The sign of a zero is not
  modelled: a zero divisor counts as \<open>+0\<close>.
\<close>

fun fdiv :: "pyfloat \<Rightarrow> pyfloat \<Rightarrow> pyfloat" where
  "fdiv (Fin x) (Fin y) =
     (if y \<noteq> 0 then Fin (x / y)
      else if x = 0 then NaN else if 0 < x then PInf else MInf)"
| "fdiv NaN _ = NaN"
| "fdiv _ NaN = NaN"
| "fdiv (Fin x) PInf = Fin 0"
| "fdiv (Fin x) MInf = Fin 0"
| "fdiv PInf (Fin y) = (if 0 \<le> y then PInf else MInf)"
| "fdiv MInf (Fin y) = (if 0 \<le> y then MInf else PInf)"
| "fdiv PInf PInf = NaN"
| "fdiv PInf MInf = NaN"
| "fdiv MInf PInf = NaN"
| "fdiv MInf MInf = NaN"

fun fsqrt :: "pyfloat \<Rightarrow> pyfloat" where
  "fsqrt (Fin x) = (if 0 \<le> x then Fin (sqrt x) else NaN)"
| "fsqrt PInf = PInf"
| "fsqrt MInf = NaN"
| "fsqrt NaN = NaN"

text \<open>The comparison \<open>x > y\<close>: false as soon as one side is \<open>nan\<close>.\<close>

fun fgt :: "pyfloat \<Rightarrow> pyfloat \<Rightarrow> bool" where
  "fgt (Fin x) (Fin y) = (y < x)"
| "fgt NaN _ = False"
| "fgt _ NaN = False"
| "fgt PInf PInf = False"
| "fgt PInf _ = True"
| "fgt MInf _ = False"
| "fgt (Fin x) MInf = True"
| "fgt (Fin x) PInf = False"

text \<open>
  Python's operators on the value \<open>f\<close> returned: an operand \<open>None\<close> raises
  \<open>TypeError\<close>.  Python's own float division raises \<open>ZeroDivisionError\<close> on a zero
  divisor.
\<close>

fun py_add :: "pyval \<Rightarrow> pyval \<Rightarrow> exn + pyfloat" where
  "py_add (PyFloat x) (PyFloat y) = Inr (fadd x y)"
| "py_add _ _ = Inl TypeError"

fun py_mul :: "pyval \<Rightarrow> pyfloat \<Rightarrow> exn + pyfloat" where
  "py_mul (PyFloat x) y = Inr (fmul x y)"
| "py_mul PyNone _ = Inl TypeError"

definition py_truediv :: "pyfloat \<Rightarrow> pyfloat \<Rightarrow> exn + pyfloat" where
  "py_truediv x y = (if y = Fin 0 then Inl ZeroDivisionError else Inr (fdiv x y))"

section \<open>Riemann sums: \<open>riemann_sum\<close> of Clase\_Integrales.py\<close>

text \<open>
  \<^verbatim>\<open>suma += f(x) * delta_x\<close>: the call may raise, the product raises on \<open>None\<close>.
\<close>

definition sumar_rectangulo :: "callable \<Rightarrow> real \<Rightarrow> real \<Rightarrow> pyfloat \<Rightarrow> exn + pyfloat" where
  "sumar_rectangulo f x delta_x suma =
     (case f x of
        Inl e \<Rightarrow> Inl e
      | Inr y \<Rightarrow>
          (case py_mul y (Fin delta_x) of
             Inl e \<Rightarrow> Inl e
           | Inr area \<Rightarrow> Inr (fadd suma area)))"

text \<open>
  \<^verbatim>\<open>suma += (f(x_left) + f(x_right)) / 2 * delta_x\<close>: both calls are made, left first,
  before the sum of the two values is formed.
\<close>

definition sumar_trapecio :: "callable \<Rightarrow> real \<Rightarrow> real \<Rightarrow> real \<Rightarrow> pyfloat \<Rightarrow> exn + pyfloat" where
  "sumar_trapecio f x_left x_right delta_x suma =
     (case f x_left of
        Inl e \<Rightarrow> Inl e
      | Inr yl \<Rightarrow>
          (case f x_right of
             Inl e \<Rightarrow> Inl e
           | Inr yr \<Rightarrow>
               (case py_add yl yr of
                  Inl e \<Rightarrow> Inl e
                | Inr s \<Rightarrow> Inr (fadd suma (fmul (fdiv s (Fin 2)) (Fin delta_x))))))"

text \<open>The body of the loop for one index \<open>i\<close>: the chain of comparisons on \<open>method\<close>.\<close>

definition riemann_paso :: "callable \<Rightarrow> real \<Rightarrow> real \<Rightarrow> string \<Rightarrow> int \<Rightarrow> pyfloat \<Rightarrow> exn + pyfloat" where
  "riemann_paso f a delta_x method i suma =
     (if method = ''left'' then
        sumar_rectangulo f (a + real_of_int i * delta_x) delta_x suma
      else if method = ''right'' then
        sumar_rectangulo f (a + real_of_int (i + 1) * delta_x) delta_x suma
      else if method = ''midpoint'' then
        sumar_rectangulo f (a + (real_of_int i + 0.5) * delta_x) delta_x suma
      else if method = ''trapezoid'' then
        sumar_trapecio f (a + real_of_int i * delta_x) (a + real_of_int (i + 1) * delta_x)
          delta_x suma
      else Inl ValueError)"

text \<open>\<^verbatim>\<open>for i in range(n)\<close>, from index \<open>i\<close> on, with the running sum.\<close>

function riemann_bucle ::
  "callable \<Rightarrow> real \<Rightarrow> real \<Rightarrow> string \<Rightarrow> int \<Rightarrow> int \<Rightarrow> pyfloat \<Rightarrow> exn + pyfloat" where
  "riemann_bucle f a delta_x method n i suma =
     (if i < n then
        (case riemann_paso f a delta_x method i suma of
           Inl e \<Rightarrow> Inl e
         | Inr suma' \<Rightarrow> riemann_bucle f a delta_x method n (i + 1) suma')
      else Inr suma)"
  by pat_completeness auto
termination
  by (relation "measure (\<lambda>(f, a, delta_x, method, n, i, suma). nat (n - i))") auto

declare riemann_bucle.simps [simp del]

definition riemann_sum :: "callable \<Rightarrow> real \<Rightarrow> real \<Rightarrow> int \<Rightarrow> string \<Rightarrow> exn + pyfloat" where
  "riemann_sum f a b n method =
     (if n \<le> 0 then Inl ValueError
      else riemann_bucle f a ((b - a) / real_of_int n) method n 0 (Fin 0))"

text \<open>
  The four rules the chain of comparisons recognizes, and the points at which the rule
  \<open>method\<close> calls \<open>f\<close> in subinterval \<open>i\<close>, in the order of the calls.
\<close>

definition metodos :: "string set" where
  "metodos = {''left'', ''right'', ''midpoint'', ''trapezoid''}"




text \<open>
  Two callables used as concrete inputs: \<open>f(x) = 1/x\<close>, whose evaluation at \<open>0\<close> raises
  \<open>ZeroDivisionError\<close>, and a callable that returns \<open>None\<close> everywhere (as
  \<open>evaluar_expresion\<close> does for an expression that cannot be evaluated).
\<close>

definition f_inversa :: callable where
  "f_inversa x = (if x = 0 then Inl ZeroDivisionError else Inr (PyFloat (Fin (1 / x))))"


section \<open>\<open>RiemannIntegrator\<close> of Clase Integrales/Int.py\<close>

text \<open>
  A \<open>Funcion\<close> object offers the method \<open>evaluar\<close>.  The constructor of
  \<open>RiemannIntegrator\<close> rejects a method that is not a key of \<open>METODOS\<close>; the loop of
  \<open>integrar\<close> has no final \<open>else\<close>: an unknown method would add nothing.
\<close>

record Funcion =
  evaluar :: callable

record RiemannIntegrator =
  funcion :: Funcion
  metodo :: string

definition METODOS :: "(string \<times> string) list" where
  "METODOS = [(''left'', ''Punto Izquierdo''), (''right'', ''Punto Derecho''),
     (''midpoint'', ''Punto Medio''), (''trapezoid'', ''Trapecio'')]"

definition RiemannIntegrator_init :: "Funcion \<Rightarrow> string \<Rightarrow> exn + RiemannIntegrator" where
  "RiemannIntegrator_init funcion' metodo' =
     (if map_of METODOS metodo' = None then Inl ValueError
      else Inr \<lparr>funcion = funcion', metodo = metodo'\<rparr>)"

definition integrar_paso :: "RiemannIntegrator \<Rightarrow> real \<Rightarrow> real \<Rightarrow> int \<Rightarrow> pyfloat \<Rightarrow> exn + pyfloat" where
  "integrar_paso self a delta_x i suma =
     (if metodo self = ''left'' then
        sumar_rectangulo (evaluar (funcion self)) (a + real_of_int i * delta_x) delta_x suma
      else if metodo self = ''right'' then
        sumar_rectangulo (evaluar (funcion self)) (a + real_of_int (i + 1) * delta_x) delta_x suma
      else if metodo self = ''midpoint'' then
        sumar_rectangulo (evaluar (funcion self)) (a + (real_of_int i + 0.5) * delta_x) delta_x suma
      else if metodo self = ''trapezoid'' then
        sumar_trapecio (evaluar (funcion self)) (a + real_of_int i * delta_x)
          (a + real_of_int (i + 1) * delta_x) delta_x suma
      else Inr suma)"

function integrar_bucle ::
  "RiemannIntegrator \<Rightarrow> real \<Rightarrow> real \<Rightarrow> int \<Rightarrow> int \<Rightarrow> pyfloat \<Rightarrow> exn + pyfloat" where
  "integrar_bucle self a delta_x n i suma =
     (if i < n then
        (case integrar_paso self a delta_x i suma of
           Inl e \<Rightarrow> Inl e
         | Inr suma' \<Rightarrow> integrar_bucle self a delta_x n (i + 1) suma')
      else Inr suma)"
  by pat_completeness auto
termination
  by (relation "measure (\<lambda>(self, a, delta_x, n, i, suma). nat (n - i))") auto

declare integrar_bucle.simps [simp del]

definition integrar :: "RiemannIntegrator \<Rightarrow> real \<Rightarrow> real \<Rightarrow> int \<Rightarrow> exn + pyfloat" where
  "integrar self a b n =
     (if n \<le> 0 then Inl ValueError
      else integrar_bucle self a ((b - a) / real_of_int n) n 0 (Fin 0))"

section \<open>The comparison of an approximation with the exact value\<close>

text \<open>
  What the program prints after a Riemann approximation.  In \<open>interfaz_usuario\<close>
  (Clase\_Integrales.py) the exact value is \<open>None\<close> when the quadrature failed; the three
  lines are printed in turn, and the quotient of the third is formed by Python's float
  division with no test of the divisor.  The result is the lines printed and the exception
  that ended the comparison, if any.
\<close>

datatype salida = ValorExacto pyfloat | ErrorAbsoluto pyfloat | ErrorRelativo pyfloat

definition comparar_interfaz :: "pyfloat \<Rightarrow> pyfloat option \<Rightarrow> salida list \<times> exn option" where
  "comparar_interfaz resultado resultado_exacto =
     (case resultado_exacto of
        None \<Rightarrow> ([], None)
      | Some exacto \<Rightarrow>
          (let error = fabs (fsub exacto resultado) in
           case py_truediv error (fabs exacto) of
             Inl e \<Rightarrow> ([ValorExacto exacto, ErrorAbsoluto error], Some e)
           | Inr cociente \<Rightarrow>
               ([ValorExacto exacto, ErrorAbsoluto error,
                 ErrorRelativo (fmul cociente (Fin 100))], None)))"

text \<open>
  In \<open>_mostrar_resultados\<close> (Int.py) a failed quadrature gives \<open>nan\<close>, and the whole
  comparison sits in a \<open>try\<close> whose \<open>except\<close> clause passes: an exception ends the
  comparison silently after the lines already printed.
\<close>

definition comparar_mostrar :: "pyfloat \<Rightarrow> pyfloat \<Rightarrow> salida list" where
  "comparar_mostrar resultado exacto =
     (if exacto = NaN then []
      else
        (let error = fabs (fsub exacto resultado) in
         case py_truediv error (fabs exacto) of
           Inl e \<Rightarrow> [ValorExacto exacto, ErrorAbsoluto error]
         | Inr cociente \<Rightarrow>
             [ValorExacto exacto, ErrorAbsoluto error,
              ErrorRelativo (fmul cociente (Fin 100))]))"

section \<open>The domain check: \<open>verificar_dominio\<close>\<close>

text \<open>
  \<open>verificar_dominio\<close> calls \<open>f\<close> at many points; the model records every call, in order,
  in a list of evaluated points (\<open>traza\<close>) that each step extends.  The test
  \<^verbatim>\<open>resultado is None or np.isnan(resultado) or np.isinf(resultado)\<close> is \<open>no_valido\<close>.
\<close>

fun no_valido :: "pyval \<Rightarrow> bool" where
  "no_valido PyNone = True"
| "no_valido (PyFloat (Fin x)) = False"
| "no_valido (PyFloat PInf) = True"
| "no_valido (PyFloat MInf) = True"
| "no_valido (PyFloat NaN) = True"

text \<open>
  \<open>np.linspace(start, stop, num)\<close>: \<open>num\<close> points \<open>start + i * step\<close> with
  \<open>step = (stop - start) / (num - 1)\<close>; over the reals the last one is \<open>stop\<close>.
\<close>

definition linspace :: "real \<Rightarrow> real \<Rightarrow> nat \<Rightarrow> real list" where
  "linspace start stop num =
     map (\<lambda>i. start + real i * ((stop - start) / real (num - 1))) [0..<num]"

text \<open>
  One guarded evaluation,
  \<^verbatim>\<open>try: resultado = f(x); if <not valid>: return False  except Exception: return False\<close>:
  the result is whether the check passed, and the extended list of evaluated points.
  \<open>verificar_puntos\<close> is the guarded loop over a list of points, which stops at the first
  point that fails.
\<close>

definition verificar_punto :: "callable \<Rightarrow> real \<Rightarrow> real list \<Rightarrow> bool \<times> real list" where
  "verificar_punto f x traza =
     (case f x of
        Inl e \<Rightarrow> (False, traza @ [x])
      | Inr resultado \<Rightarrow> (\<not> no_valido resultado, traza @ [x]))"

fun verificar_puntos :: "callable \<Rightarrow> real list \<Rightarrow> real list \<Rightarrow> bool \<times> real list" where
  "verificar_puntos f [] traza = (True, traza)"
| "verificar_puntos f (x # xs) traza =
     (case verificar_punto f x traza of
        (False, traza') \<Rightarrow> (False, traza')
      | (True, traza') \<Rightarrow> verificar_puntos f xs traza')"

text \<open>
  Step 3 evaluates \<open>f\<close> again on the uniform grid, outside any \<open>try\<close>
  (\<^verbatim>\<open>valores = [f(x) for x in puntos_uniformes]\<close>): an exception raised here would leave
  \<open>verificar_dominio\<close>.  \<open>np.diff\<close> subtracts neighbours and raises \<open>TypeError\<close> on
  \<open>None\<close>; \<open>np.mean\<close> of an empty array is \<open>nan\<close>; \<open>np.std\<close> is the population
  standard deviation; \<open>np.where(diferencias > umbral)[0]\<close> lists the indices, ascending.
\<close>

fun evaluar_lista :: "callable \<Rightarrow> real list \<Rightarrow> real list \<Rightarrow> (exn + pyval list) \<times> real list" where
  "evaluar_lista f [] traza = (Inr [], traza)"
| "evaluar_lista f (x # xs) traza =
     (case f x of
        Inl e \<Rightarrow> (Inl e, traza @ [x])
      | Inr v \<Rightarrow>
          (case evaluar_lista f xs (traza @ [x]) of
             (Inl e, traza') \<Rightarrow> (Inl e, traza')
           | (Inr vs, traza') \<Rightarrow> (Inr (v # vs), traza')))"

fun np_diff :: "pyval list \<Rightarrow> exn + pyfloat list" where
  "np_diff (PyFloat x # PyFloat y # vs) =
     (case np_diff (PyFloat y # vs) of
        Inl e \<Rightarrow> Inl e
      | Inr ds \<Rightarrow> Inr (fsub y x # ds))"
| "np_diff (v # w # vs) = Inl TypeError"
| "np_diff vs = Inr []"

definition np_mean :: "pyfloat list \<Rightarrow> pyfloat" where
  "np_mean xs = (if xs = [] then NaN else fdiv (foldl fadd (Fin 0) xs) (Fin (real (length xs))))"

definition np_std :: "pyfloat list \<Rightarrow> pyfloat" where
  "np_std xs =
     (let m = np_mean xs
      in fsqrt (np_mean (map (\<lambda>x. fmul (fabs (fsub x m)) (fabs (fsub x m))) xs)))"

definition np_where_gt :: "pyfloat list \<Rightarrow> pyfloat \<Rightarrow> nat list" where
  "np_where_gt xs umbral = filter (\<lambda>i. fgt (xs ! i) umbral) [0..<length xs]"

text \<open>
  Lines 95 to 99 of the function: the absolute differences, the threshold
  \<open>mean + 3 * std\<close> and the indices whose difference exceeds it.
\<close>

definition indices_sospechosos :: "pyfloat list \<Rightarrow> nat list" where
  "indices_sospechosos d =
     (let diferencias = map fabs d;
          umbral_cambio = fadd (np_mean diferencias) (fmul (Fin 3) (np_std diferencias))
      in np_where_gt diferencias umbral_cambio)"

text \<open>
  The loop over the suspicious indices.  The reads \<open>puntos_uniformes[i]\<close> and
  \<open>puntos_uniformes[i + 1]\<close> are outside the \<open>try\<close>: out of range they would raise
  \<open>IndexError\<close>.  Each gap is sampled again at 100 points under a guard.
\<close>

fun verificar_sospechosos ::
  "callable \<Rightarrow> real list \<Rightarrow> nat list \<Rightarrow> real list \<Rightarrow> (exn + bool) \<times> real list" where
  "verificar_sospechosos f puntos [] traza = (Inr True, traza)"
| "verificar_sospechosos f puntos (i # indices) traza =
     (if length puntos \<le> i + 1 then (Inl IndexError, traza)
      else
        (case verificar_puntos f (linspace (puntos ! i) (puntos ! (i + 1)) 100) traza of
           (False, traza') \<Rightarrow> (Inr False, traza')
         | (True, traza') \<Rightarrow> verificar_sospechosos f puntos indices traza'))"

text \<open>
  Step 4.  \<open>int(x)\<close> truncates towards zero; \<open>range(int(a), int(b) + 1)\<close> filtered by
  \<open>a <= i <= b\<close>, then the fractions \<open>j / i\<close> for \<open>i\<close> in \<open>range(1, 21)\<close> and \<open>j\<close> in
  \<open>range(i)\<close>, then the four constants.  The loop runs over \<open>set(puntos_especiales)\<close>;
  the model takes the points without duplicates in list order (Python's order is not
  specified; the verdict does not depend on it, see \<open>verificar_especiales_orden\<close>).
\<close>

definition py_int :: "real \<Rightarrow> int" where
  "py_int x = (if 0 \<le> x then \<lfloor>x\<rfloor> else \<lceil>x\<rceil>)"

definition puntos_especiales :: "real \<Rightarrow> real \<Rightarrow> real list" where
  "puntos_especiales a b =
     map real_of_int (filter (\<lambda>i. a \<le> real_of_int i \<and> real_of_int i \<le> b) [py_int a..py_int b])
     @ concat (map (\<lambda>i. filter (\<lambda>punto. a \<le> punto \<and> punto \<le> b)
                            (map (\<lambda>j. real j / real i) [0..<i])) [1..<21])
     @ filter (\<lambda>v. a \<le> v \<and> v \<le> b) [pi, exp 1, sqrt 2, sqrt 3]"

fun verificar_especiales ::
  "callable \<Rightarrow> real \<Rightarrow> real \<Rightarrow> real \<Rightarrow> real list \<Rightarrow> real list \<Rightarrow> bool \<times> real list" where
  "verificar_especiales f a b tolerancia [] traza = (True, traza)"
| "verificar_especiales f a b tolerancia (punto # resto) traza =
     (case verificar_punto f punto traza of
        (False, t1) \<Rightarrow> (False, t1)
      | (True, t1) \<Rightarrow>
          (case (if punto > a + tolerancia then verificar_punto f (punto - tolerancia) t1
                 else (True, t1)) of
             (False, t2) \<Rightarrow> (False, t2)
           | (True, t2) \<Rightarrow>
               (case (if punto < b - tolerancia then verificar_punto f (punto + tolerancia) t2
                      else (True, t2)) of
                  (False, t3) \<Rightarrow> (False, t3)
                | (True, t3) \<Rightarrow> verificar_especiales f a b tolerancia resto t3)))"

text \<open>
  The whole function, with the number of uniformly spaced points as a parameter:
  \<open>n_verificacion\<close> is \<open>1000000\<close> in the first definition of Clase\_Integrales.py
  (line 81) and \<open>1000\<close> in the second one (line 514), which is otherwise identical.
  The exception of the first component is one that leaves \<open>verificar_dominio\<close>.
\<close>

definition verificar_dominio_traza ::
  "nat \<Rightarrow> callable \<Rightarrow> real \<Rightarrow> real \<Rightarrow> real \<Rightarrow> (exn + bool) \<times> real list" where
  "verificar_dominio_traza n_verificacion f a b tolerancia =
     (case f a of
        Inl e \<Rightarrow> (Inr False, [a])
      | Inr resultado_a \<Rightarrow>
          (case f b of
             Inl e \<Rightarrow> (Inr False, [a, b])
           | Inr resultado_b \<Rightarrow>
               if no_valido resultado_a \<or> no_valido resultado_b then (Inr False, [a, b])
               else
                 (let puntos_uniformes = linspace a b n_verificacion in
                  case verificar_puntos f puntos_uniformes [a, b] of
                    (False, t2) \<Rightarrow> (Inr False, t2)
                  | (True, t2) \<Rightarrow>
                      (case evaluar_lista f puntos_uniformes t2 of
                         (Inl e, t3) \<Rightarrow> (Inl e, t3)
                       | (Inr valores, t3) \<Rightarrow>
                           (case np_diff valores of
                              Inl e \<Rightarrow> (Inl e, t3)
                            | Inr d \<Rightarrow>
                                (case verificar_sospechosos f puntos_uniformes
                                        (indices_sospechosos d) t3 of
                                   (Inl e, t4) \<Rightarrow> (Inl e, t4)
                                 | (Inr False, t4) \<Rightarrow> (Inr False, t4)
                                 | (Inr True, t4) \<Rightarrow>
                                     (case verificar_especiales f a b tolerancia
                                             (remdups (puntos_especiales a b)) t4 of
                                        (ok, t5) \<Rightarrow> (Inr ok, t5))))))))"

definition verificar_dominio :: "nat \<Rightarrow> callable \<Rightarrow> real \<Rightarrow> real \<Rightarrow> real \<Rightarrow> exn + bool" where
  "verificar_dominio n_verificacion f a b tolerancia =
     fst (verificar_dominio_traza n_verificacion f a b tolerancia)"


text \<open>
  \<open>f\<close> is defined at a point when the call returns a finite float.  The probes of a special
  point \<open>p\<close> in the words of the specification: \<open>p\<close> itself, \<open>p - tolerancia\<close> when it is
  strictly greater than \<open>a\<close>, \<open>p + tolerancia\<close> when it is strictly less than \<open>b\<close>; and
  the same probes as the code lists them, with its guards \<open>punto > a + tolerancia\<close> and
  \<open>punto < b - tolerancia\<close>.
\<close>

definition definido :: "exn + pyval \<Rightarrow> bool" where
  "definido r = (case r of Inr (PyFloat (Fin y)) \<Rightarrow> True | _ \<Rightarrow> False)"

text \<open>
  The values of \<open>f\<close> on a list of points where it returns, and the suspicious indices they
  lead to: what step 3 computes once step 2 has passed.
\<close>

definition valores_de :: "callable \<Rightarrow> real list \<Rightarrow> pyval list" where
  "valores_de f xs = map (\<lambda>x. case f x of Inr v \<Rightarrow> v | Inl e \<Rightarrow> PyNone) xs"

definition indices_de :: "callable \<Rightarrow> real list \<Rightarrow> nat list" where
  "indices_de f xs =
     (case np_diff (valores_de f xs) of Inr d \<Rightarrow> indices_sospechosos d | Inl e \<Rightarrow> [])"

definition sondas :: "real \<Rightarrow> real \<Rightarrow> real \<Rightarrow> real \<Rightarrow> real set" where
  "sondas a b tolerancia p =
     {p} \<union> (if a < p - tolerancia then {p - tolerancia} else {})
         \<union> (if p + tolerancia < b then {p + tolerancia} else {})"

definition sondas_lista :: "real \<Rightarrow> real \<Rightarrow> real \<Rightarrow> real \<Rightarrow> real list" where
  "sondas_lista a b tolerancia p =
     [p] @ (if p > a + tolerancia then [p - tolerancia] else [])
         @ (if p < b - tolerancia then [p + tolerancia] else [])"

text \<open>Two more concrete callables: \<open>f(x) = x^2\<close>, and one whose every call raises.\<close>

definition f_cuadrado :: callable where
  "f_cuadrado x = Inr (PyFloat (Fin (x ^ 2)))"


section \<open>Properties of the Riemann sums\<close>


























lemma integrar_paso_eq:
  "method \<in> metodos \<Longrightarrow>
   integrar_paso \<lparr>funcion = F, metodo = method\<rparr> a delta_x i suma =
     riemann_paso (evaluar F) a delta_x method i suma"
  by (auto simp: metodos_def integrar_paso_def riemann_paso_def)

lemma integrar_bucle_eq:
  assumes m: "method \<in> metodos"
  shows "integrar_bucle \<lparr>funcion = F, metodo = method\<rparr> a delta_x n i suma =
     riemann_bucle (evaluar F) a delta_x method n i suma"
proof (induction "nat (n - i)" arbitrary: i suma)
  case 0
  then have "\<not> i < n" by simp
  then show ?case
    by (simp add: riemann_bucle.simps[of _ _ _ _ n i] integrar_bucle.simps[of _ _ _ n i])
next
  case (Suc k)
  then have lt: "i < n" by simp
  have k: "k = nat (n - (i + 1))" using Suc.hyps(2) by simp
  show ?case
    using lt Suc.hyps(1)[OF k] integrar_paso_eq[OF m]
    by (simp add: riemann_bucle.simps[of _ _ _ _ n i] integrar_bucle.simps[of _ _ _ n i]
        split: sum.splits)
qed

text \<open>
  Claim C9.  For each of the four methods the constructor of \<open>RiemannIntegrator\<close> accepts
  the method, and \<open>integrar\<close> returns what \<open>riemann_sum\<close> returns on the same function,
  interval and number of subintervals: the same float, or the same exception.
\<close>

theorem integrar_igual_riemann_sum:
  assumes "method \<in> metodos"
  shows "\<exists>ri. RiemannIntegrator_init F method = Inr ri \<and>
     integrar ri a b n = riemann_sum (evaluar F) a b n method"
  using assms integrar_bucle_eq[OF assms]
  by (auto simp: RiemannIntegrator_init_def METODOS_def metodos_def integrar_def riemann_sum_def)

theorem integrar_igual_riemann_sum_witness:
  "''midpoint'' \<in> metodos \<and>
   (\<exists>ri. RiemannIntegrator_init \<lparr>evaluar = (\<lambda>x. Inr (PyFloat (Fin x)))\<rparr> ''midpoint'' = Inr ri \<and>
     integrar ri 0 1 4 = riemann_sum (\<lambda>x. Inr (PyFloat (Fin x))) 0 1 4 ''midpoint'')"
  using integrar_igual_riemann_sum [of "''midpoint''" "\<lparr>evaluar = (\<lambda>x. Inr (PyFloat (Fin x)))\<rparr>" 0 1 4]
  by (simp add: metodos_def)

text \<open>
  Claim C6 describes a guard the program does not have.  For an approximation \<open>0.5\<close> and the
  exact value \<open>0\<close>, \<open>interfaz_usuario\<close> prints the exact value and the absolute error and
  then divides by \<open>abs(0.0)\<close>: \<open>ZeroDivisionError\<close> is raised.  In Int.py the same division
  is made and its exception is swallowed; no line marks the relative error as undefined.
\<close>

theorem comparar_divide_por_cero:
  "comparar_interfaz (Fin (1 / 2)) (Some (Fin 0)) =
     ([ValorExacto (Fin 0), ErrorAbsoluto (Fin (1 / 2))], Some ZeroDivisionError) \<and>
   comparar_mostrar (Fin (1 / 2)) (Fin 0) = [ValorExacto (Fin 0), ErrorAbsoluto (Fin (1 / 2))]"
  by (simp add: comparar_interfaz_def comparar_mostrar_def py_truediv_def fsub_def)

section \<open>Properties of the domain check\<close>

lemma definido_iff: "definido r \<longleftrightarrow> (\<exists>y. r = Inr (PyFloat (Fin y)))"
  by (auto simp: definido_def split: sum.splits pyval.splits pyfloat.splits)

lemma definido_no_valido: "definido r \<longleftrightarrow> (\<exists>v. r = Inr v \<and> \<not> no_valido v)"
proof (cases r)
  case (Inl e)
  then show ?thesis by (simp add: definido_def)
next
  case (Inr v)
  then show ?thesis
    by (cases v rule: no_valido.cases) (simp_all add: definido_def)
qed

lemma verificar_punto_eq: "verificar_punto f x traza = (definido (f x), traza @ [x])"
proof (cases "f x")
  case (Inl e)
  then show ?thesis by (simp add: verificar_punto_def definido_def)
next
  case (Inr v)
  then show ?thesis
    using definido_no_valido[of "f x"] by (simp add: verificar_punto_def)
qed

lemma verificar_puntos_Cons:
  "verificar_puntos f (x # xs) traza =
     (if definido (f x) then verificar_puntos f xs (traza @ [x]) else (False, traza @ [x]))"
  by (simp add: verificar_punto_eq)

declare verificar_puntos.simps(2) [simp del]

lemma verificar_puntos_fst:
  "fst (verificar_puntos f xs traza) \<longleftrightarrow> (\<forall>x\<in>set xs. definido (f x))"
  by (induction xs arbitrary: traza) (simp_all add: verificar_puntos_Cons)

lemma verificar_puntos_snd:
  "fst (verificar_puntos f xs traza) \<Longrightarrow> snd (verificar_puntos f xs traza) = traza @ xs"
  by (induction xs arbitrary: traza) (simp_all add: verificar_puntos_Cons split: if_splits)

lemma verificar_puntos_sub:
  "set (snd (verificar_puntos f xs traza)) \<subseteq> set traza \<union> set xs"
proof (induction xs arbitrary: traza)
  case Nil
  then show ?case by simp
next
  case (Cons x xs)
  show ?case
  proof (cases "definido (f x)")
    case True
    then show ?thesis using Cons.IH[of "traza @ [x]"] by (auto simp: verificar_puntos_Cons)
  next
    case False
    then show ?thesis by (auto simp: verificar_puntos_Cons)
  qed
qed

lemma evaluar_lista_definido:
  "\<forall>x\<in>set xs. definido (f x) \<Longrightarrow>
     evaluar_lista f xs traza = (Inr (valores_de f xs), traza @ xs)"
proof (induction xs arbitrary: traza)
  case Nil
  then show ?case by (simp add: valores_de_def)
next
  case (Cons x xs)
  then obtain y where y: "f x = Inr (PyFloat (Fin y))" by (auto simp: definido_iff)
  have "evaluar_lista f xs (traza @ [x]) = (Inr (valores_de f xs), (traza @ [x]) @ xs)"
    using Cons.IH[of "traza @ [x]"] Cons.prems by simp
  then show ?case using y by (simp add: valores_de_def)
qed

lemma valores_de_flotantes:
  "\<forall>x\<in>set xs. definido (f x) \<Longrightarrow> \<forall>v\<in>set (valores_de f xs). \<exists>y. v = PyFloat (Fin y)"
  by (auto simp: valores_de_def definido_iff)

lemma length_valores_de [simp]: "length (valores_de f xs) = length xs"
  by (simp add: valores_de_def)

lemma np_diff_flotantes:
  "\<forall>v\<in>set vs. \<exists>y. v = PyFloat (Fin y) \<Longrightarrow>
     \<exists>ds. np_diff vs = Inr ds \<and> length ds = length vs - 1"
proof (induction vs rule: np_diff.induct)
  case (1 x y vs)
  then show ?case by (auto split: sum.splits)
qed auto

lemma np_where_gt_lt: "i \<in> set (np_where_gt xs umbral) \<Longrightarrow> i < length xs"
  by (simp add: np_where_gt_def)

lemma indices_sospechosos_lt: "i \<in> set (indices_sospechosos d) \<Longrightarrow> i < length d"
  using np_where_gt_lt[of i "map fabs d"] by (simp add: indices_sospechosos_def Let_def)

lemma indices_de_lt:
  assumes "\<forall>x\<in>set xs. definido (f x)" and "i \<in> set (indices_de f xs)"
  shows "i + 1 < length xs"
proof -
  from np_diff_flotantes[OF valores_de_flotantes[OF assms(1)]] obtain ds where
    ds: "np_diff (valores_de f xs) = Inr ds" and lds: "length ds = length (valores_de f xs) - 1"
    by blast
  have "i \<in> set (indices_sospechosos ds)" using assms(2) ds by (simp add: indices_de_def)
  then have "i < length ds" by (rule indices_sospechosos_lt)
  then show ?thesis using lds by simp
qed

lemma length_linspace [simp]: "length (linspace start stop num) = num"
  by (simp add: linspace_def)

lemma linspace_nth:
  "i < num \<Longrightarrow> linspace start stop num ! i = start + real i * ((stop - start) / real (num - 1))"
  by (simp add: linspace_def)

lemma linspace_cota:
  assumes ab: "start \<le> stop" and x: "x \<in> set (linspace start stop num)"
  shows "start \<le> x \<and> x \<le> stop"
proof -
  from x obtain i where i: "i < num" and xi: "x = start + real i * ((stop - start) / real (num - 1))"
    by (auto simp: linspace_def)
  show ?thesis
  proof (cases "num - 1 = 0")
    case True
    then have "i = 0" using i by simp
    then show ?thesis using xi ab by simp
  next
    case False
    then have pos: "0 < real (num - 1)" by simp
    have le: "real i \<le> real (num - 1)" using i by simp
    have t0: "0 \<le> real i / real (num - 1)" by simp
    have t1: "real i / real (num - 1) \<le> 1" using le pos by simp
    have eq: "x = start + (real i / real (num - 1)) * (stop - start)" using xi by simp
    have d: "0 \<le> stop - start" using ab by simp
    have "0 \<le> (real i / real (num - 1)) * (stop - start)"
      using t0 d by (rule mult_nonneg_nonneg)
    moreover have "(real i / real (num - 1)) * (stop - start) \<le> 1 * (stop - start)"
      using t1 d by (rule mult_right_mono)
    ultimately show ?thesis using eq by simp
  qed
qed

lemma linspace_mono:
  assumes ab: "start \<le> stop" and i: "i + 1 < num"
  shows "linspace start stop num ! i \<le> linspace start stop num ! (i + 1)"
proof -
  have "0 \<le> (stop - start) / real (num - 1)" using ab by simp
  then have "real i * ((stop - start) / real (num - 1)) \<le> real (i + 1) * ((stop - start) / real (num - 1))"
    by (intro mult_right_mono) simp_all
  then show ?thesis using i by (simp add: linspace_nth)
qed

lemma verificar_sospechosos_pasa:
  assumes i: "Suc i < length puntos"
    and d: "\<forall>x\<in>set (linspace (puntos ! i) (puntos ! Suc i) 100). definido (f x)"
  shows "verificar_sospechosos f puntos (i # indices) traza =
     verificar_sospechosos f puntos indices (traza @ linspace (puntos ! i) (puntos ! Suc i) 100)"
proof -
  let ?xs = "linspace (puntos ! i) (puntos ! Suc i) 100"
  have "fst (verificar_puntos f ?xs traza)" using d by (simp add: verificar_puntos_fst)
  then have "verificar_puntos f ?xs traza = (True, traza @ ?xs)"
    using verificar_puntos_snd[of f ?xs traza] by (simp add: prod_eq_iff)
  then show ?thesis using i by simp
qed

lemma verificar_sospechosos_falla:
  assumes i: "Suc i < length puntos"
    and d: "\<not> (\<forall>x\<in>set (linspace (puntos ! i) (puntos ! Suc i) 100). definido (f x))"
  shows "verificar_sospechosos f puntos (i # indices) traza =
     (Inr False, snd (verificar_puntos f (linspace (puntos ! i) (puntos ! Suc i) 100) traza))"
proof -
  let ?xs = "linspace (puntos ! i) (puntos ! Suc i) 100"
  have "\<not> fst (verificar_puntos f ?xs traza)" using d by (simp add: verificar_puntos_fst)
  then obtain t' where e: "verificar_puntos f ?xs traza = (False, t')"
    by (cases "verificar_puntos f ?xs traza") auto
  show ?thesis using i by (simp add: e)
qed

lemma verificar_sospechosos_bool:
  "\<forall>i\<in>set indices. i + 1 < length puntos \<Longrightarrow>
     \<exists>v. fst (verificar_sospechosos f puntos indices traza) = Inr v"
proof (induction indices arbitrary: traza)
  case Nil
  then show ?case by auto
next
  case (Cons i indices)
  then have i: "Suc i < length puntos" by simp
  let ?xs = "linspace (puntos ! i) (puntos ! Suc i) 100"
  show ?case
  proof (cases "\<forall>x\<in>set ?xs. definido (f x)")
    case True
    have "\<exists>v. fst (verificar_sospechosos f puntos indices (traza @ ?xs)) = Inr v"
      using Cons.IH[of "traza @ ?xs"] Cons.prems by simp
    then show ?thesis by (simp only: verificar_sospechosos_pasa[OF i True])
  next
    case False
    show ?thesis by (simp only: verificar_sospechosos_falla[OF i False] fst_conv) blast
  qed
qed


lemma verificar_sospechosos_True:
  "\<forall>i\<in>set indices. i + 1 < length puntos \<Longrightarrow>
     fst (verificar_sospechosos f puntos indices traza) = Inr True \<Longrightarrow>
     \<forall>x\<in>set traza. definido (f x) \<Longrightarrow>
     \<forall>x\<in>set (snd (verificar_sospechosos f puntos indices traza)). definido (f x)"
proof (induction indices arbitrary: traza)
  case Nil
  then show ?case by simp
next
  case (Cons i indices)
  then have i: "Suc i < length puntos" by simp
  let ?xs = "linspace (puntos ! i) (puntos ! Suc i) 100"
  show ?case
  proof (cases "\<forall>x\<in>set ?xs. definido (f x)")
    case True
    then have t: "\<forall>x\<in>set (traza @ ?xs). definido (f x)" using Cons.prems(3) by auto
    have r: "fst (verificar_sospechosos f puntos indices (traza @ ?xs)) = Inr True"
      using Cons.prems(2) by (simp only: verificar_sospechosos_pasa[OF i True])
    have "\<forall>i\<in>set indices. i + 1 < length puntos" using Cons.prems(1) by simp
    from Cons.IH[OF this r t] show ?thesis
      by (simp only: verificar_sospechosos_pasa[OF i True])
  next
    case False
    have "fst (verificar_sospechosos f puntos (i # indices) traza) = Inr False"
      by (simp only: verificar_sospechosos_falla[OF i False] fst_conv)
    then show ?thesis using Cons.prems(2) by simp
  qed
qed

lemma verificar_sospechosos_definido:
  "\<forall>i\<in>set indices. i + 1 < length puntos \<Longrightarrow>
     \<forall>i\<in>set indices. \<forall>x\<in>set (linspace (puntos ! i) (puntos ! Suc i) 100). definido (f x) \<Longrightarrow>
     fst (verificar_sospechosos f puntos indices traza) = Inr True"
proof (induction indices arbitrary: traza)
  case Nil
  then show ?case by simp
next
  case (Cons i indices)
  then have i: "Suc i < length puntos" by simp
  have d: "\<forall>x\<in>set (linspace (puntos ! i) (puntos ! Suc i) 100). definido (f x)"
    using Cons.prems(2) by simp
  have "fst (verificar_sospechosos f puntos indices
      (traza @ linspace (puntos ! i) (puntos ! Suc i) 100)) = Inr True"
    using Cons.IH Cons.prems by simp
  then show ?case by (simp only: verificar_sospechosos_pasa[OF i d])
qed

lemma set_sondas_lista: "set (sondas_lista a b tolerancia p) = sondas a b tolerancia p"
  by (auto simp: sondas_lista_def sondas_def)

lemma verificar_especiales_pasa:
  assumes d: "\<forall>x\<in>sondas a b tolerancia p. definido (f x)"
  shows "verificar_especiales f a b tolerancia (p # resto) traza =
     verificar_especiales f a b tolerancia resto (traza @ sondas_lista a b tolerancia p)"
proof -
  have p: "definido (f p)" using d by (simp add: sondas_def)
  have m: "p > a + tolerancia \<Longrightarrow> definido (f (p - tolerancia))"
    using d by (auto simp: sondas_def)
  have q: "p < b - tolerancia \<Longrightarrow> definido (f (p + tolerancia))"
    using d by (auto simp: sondas_def)
  show ?thesis using p m q
    by (simp add: verificar_punto_eq sondas_lista_def)
qed

lemma verificar_especiales_falla:
  assumes d: "\<not> (\<forall>x\<in>sondas a b tolerancia p. definido (f x))"
  shows "\<not> fst (verificar_especiales f a b tolerancia (p # resto) traza) \<and>
     set (snd (verificar_especiales f a b tolerancia (p # resto) traza)) \<subseteq>
       set traza \<union> sondas a b tolerancia p"
proof (cases "definido (f p)")
  case False
  then show ?thesis by (auto simp: verificar_punto_eq sondas_def)
next
  case p: True
  show ?thesis
  proof (cases "p > a + tolerancia \<and> \<not> definido (f (p - tolerancia))")
    case True
    then show ?thesis using p by (auto simp: verificar_punto_eq sondas_def)
  next
    case False
    then have "p < b - tolerancia \<and> \<not> definido (f (p + tolerancia))"
      using d p by (auto simp: sondas_def split: if_splits)
    then show ?thesis using p False
      by (auto simp: verificar_punto_eq sondas_def)
  qed
qed

lemma verificar_especiales_fst:
  "fst (verificar_especiales f a b tolerancia ps traza) \<longleftrightarrow>
     (\<forall>p\<in>set ps. \<forall>x\<in>sondas a b tolerancia p. definido (f x))"
proof (induction ps arbitrary: traza)
  case Nil
  then show ?case by simp
next
  case (Cons p ps)
  show ?case
  proof (cases "\<forall>x\<in>sondas a b tolerancia p. definido (f x)")
    case True
    show ?thesis using True Cons.IH
      by (simp only: verificar_especiales_pasa[OF True]) simp
  next
    case False
    show ?thesis using False verificar_especiales_falla[OF False, of resto traza for resto]
      by auto
  qed
qed

lemma verificar_especiales_sub:
  "set (snd (verificar_especiales f a b tolerancia ps traza)) \<subseteq>
     set traza \<union> (\<Union>p\<in>set ps. sondas a b tolerancia p)"
proof (induction ps arbitrary: traza)
  case Nil
  then show ?case by simp
next
  case (Cons p ps)
  show ?case
  proof (cases "\<forall>x\<in>sondas a b tolerancia p. definido (f x)")
    case True
    have "set (snd (verificar_especiales f a b tolerancia ps
             (traza @ sondas_lista a b tolerancia p))) \<subseteq>
      set (traza @ sondas_lista a b tolerancia p) \<union> (\<Union>p\<in>set ps. sondas a b tolerancia p)"
      by (rule Cons.IH)
    then show ?thesis
      by (simp only: verificar_especiales_pasa[OF True]) (auto simp: set_sondas_lista)
  next
    case False
    show ?thesis using verificar_especiales_falla[OF False, of ps traza] by auto
  qed
qed

lemma verificar_especiales_snd:
  "fst (verificar_especiales f a b tolerancia ps traza) \<Longrightarrow>
     set (snd (verificar_especiales f a b tolerancia ps traza)) =
       set traza \<union> (\<Union>p\<in>set ps. sondas a b tolerancia p)"
proof (induction ps arbitrary: traza)
  case Nil
  then show ?case by simp
next
  case (Cons p ps)
  then have d: "\<forall>x\<in>sondas a b tolerancia p. definido (f x)"
    by (simp add: verificar_especiales_fst del: verificar_especiales.simps)
  have "fst (verificar_especiales f a b tolerancia ps (traza @ sondas_lista a b tolerancia p))"
    using Cons.prems by (simp only: verificar_especiales_pasa[OF d])
  from Cons.IH[OF this] show ?case
    by (simp only: verificar_especiales_pasa[OF d]) (auto simp: set_sondas_lista)
qed

lemma sondas_cota:
  assumes "a \<le> p" "p \<le> b" "0 \<le> tolerancia" "x \<in> sondas a b tolerancia p"
  shows "a \<le> x \<and> x \<le> b"
  using assms by (auto simp: sondas_def split: if_splits)

lemma py_int_rango:
  assumes "a \<le> real_of_int k" "real_of_int k \<le> b"
  shows "py_int a \<le> k \<and> k \<le> py_int b"
proof
  show "py_int a \<le> k"
  proof (cases "0 \<le> a")
    case True
    have "\<lfloor>a\<rfloor> \<le> \<lfloor>real_of_int k\<rfloor>" using assms(1) by (rule floor_mono)
    then show ?thesis using True by (simp add: py_int_def)
  next
    case False
    then show ?thesis using assms(1) by (simp add: py_int_def ceiling_le_iff)
  qed
  show "k \<le> py_int b"
  proof (cases "0 \<le> b")
    case True
    then show ?thesis using assms(2) by (simp add: py_int_def le_floor_iff)
  next
    case False
    have "\<lceil>real_of_int k\<rceil> \<le> \<lceil>b\<rceil>" using assms(2) by (rule ceiling_mono)
    then show ?thesis using False by (simp add: py_int_def)
  qed
qed

lemma set_fracciones:
  "set (concat (map (\<lambda>i. filter P (map (\<lambda>j. real j / real i) [0..<i])) [1..<21])) =
     {p. P p \<and> (\<exists>i j. i < 21 \<and> j < i \<and> p = real j / real i)}"
  (is "?L = ?R")
proof (intro set_eqI iffI)
  fix p assume "p \<in> ?L"
  then show "p \<in> ?R" by (auto simp del: upt_Suc)
next
  fix p assume "p \<in> ?R"
  then obtain i j where ij: "i < 21" "j < i" "p = real j / real i" and P: "P p" by auto
  have "i \<in> set [1..<21]" using ij by simp
  moreover have "p \<in> set (filter P (map (\<lambda>j. real j / real i) [0..<i]))"
    using ij P by simp
  ultimately show "p \<in> ?L" unfolding set_concat set_map by blast
qed

lemma en_puntos_especiales:
  "p \<in> set (puntos_especiales a b) \<longleftrightarrow>
     a \<le> p \<and> p \<le> b \<and>
     ((\<exists>k. p = real_of_int k \<and> py_int a \<le> k \<and> k \<le> py_int b) \<or>
      (\<exists>i j. 1 \<le> i \<and> i < 21 \<and> j < i \<and> p = real j / real i) \<or>
      p \<in> {pi, exp 1, sqrt 2, sqrt 3})"
proof -
  have uno: "(\<exists>i j. i < 21 \<and> j < i \<and> p = real j / real i) \<longleftrightarrow>
      (\<exists>i j. 1 \<le> i \<and> i < (21::nat) \<and> j < i \<and> p = real j / real i)"
    by (metis less_one linorder_not_le not_less_zero)
  have esp: "set (filter (\<lambda>v. a \<le> v \<and> v \<le> b) [pi, exp 1, sqrt 2, sqrt 3]) =
      {v. (a \<le> v \<and> v \<le> b) \<and> v \<in> {pi, exp 1, sqrt 2, sqrt 3}}"
    unfolding set_filter by auto
  show ?thesis
    unfolding puntos_especiales_def set_append Un_iff set_fracciones esp
    using uno by auto
qed

lemma set_puntos_especiales:
  "set (puntos_especiales a b) =
     {p. a \<le> p \<and> p \<le> b \<and>
         (p \<in> \<int> \<or> (\<exists>i\<in>{1..20::nat}. \<exists>j\<in>{0..i}. p = real j / real i) \<or>
          p \<in> {pi, exp 1, sqrt 2, sqrt 3})}"
  (is "?L = ?R")
proof (intro set_eqI iffI)
  fix p assume "p \<in> ?L"
  then have ab: "a \<le> p" "p \<le> b" and
    c: "(\<exists>k. p = real_of_int k \<and> py_int a \<le> k \<and> k \<le> py_int b) \<or>
      (\<exists>i j. 1 \<le> i \<and> i < 21 \<and> j < i \<and> p = real j / real i) \<or>
      p \<in> {pi, exp 1, sqrt 2, sqrt 3}"
    by (simp_all only: en_puntos_especiales)
  from c consider
      (ent) k where "p = real_of_int k"
    | (fra) i j where "1 \<le> i" "i < (21::nat)" "j < i" "p = real j / real i"
    | (esp) "p \<in> {pi, exp 1, sqrt 2, sqrt 3}"
    by blast
  then show "p \<in> ?R"
  proof cases
    case ent
    then show ?thesis using ab by simp
  next
    case fra
    then have "i \<in> {1..20}" "j \<in> {0..i}" by auto
    then show ?thesis using fra ab by blast
  next
    case esp
    then show ?thesis using ab by simp
  qed
next
  fix p assume "p \<in> ?R"
  then have ab: "a \<le> p" "p \<le> b" and
    c: "p \<in> \<int> \<or> (\<exists>i\<in>{1..20::nat}. \<exists>j\<in>{0..i}. p = real j / real i) \<or>
          p \<in> {pi, exp 1, sqrt 2, sqrt 3}" by auto
  have entero: "p \<in> ?L" if "p = real_of_int k" for k
  proof -
    have "py_int a \<le> k \<and> k \<le> py_int b" using py_int_rango[of a k b] ab that by simp
    then show ?thesis using ab that by (simp only: en_puntos_especiales) blast
  qed
  from c consider (ent) "p \<in> \<int>"
    | (fra) i j where "i \<in> {1..20::nat}" "j \<in> {0..i}" "p = real j / real i"
    | (esp) "p \<in> {pi, exp 1, sqrt 2, sqrt 3}" by blast
  then show "p \<in> ?L"
  proof cases
    case ent
    then obtain k where "p = real_of_int k" by (auto elim: Ints_cases)
    then show ?thesis by (rule entero)
  next
    case fra
    show ?thesis
    proof (cases "j = i")
      case True
      then have "p = real_of_int 1" using fra by simp
      then show ?thesis by (rule entero)
    next
      case False
      then have "1 \<le> i \<and> i < 21 \<and> j < i \<and> p = real j / real i" using fra by auto
      then show ?thesis using ab by (simp only: en_puntos_especiales) blast
    qed
  next
    case esp
    then show ?thesis using ab by (simp only: en_puntos_especiales) blast
  qed
qed

lemma vd_falla:
  assumes "\<not> (definido (f a) \<and> definido (f b) \<and>
             (\<forall>x\<in>set (linspace a b n). definido (f x)))"
  shows "fst (verificar_dominio_traza n f a b tolerancia) = Inr False \<and>
     set (snd (verificar_dominio_traza n f a b tolerancia)) \<subseteq> {a, b} \<union> set (linspace a b n)"
proof (cases "definido (f a) \<and> definido (f b)")
  case False
  then show ?thesis
    by (auto simp: verificar_dominio_traza_def definido_no_valido split: sum.splits)
next
  case True
  then obtain ya yb where y: "f a = Inr (PyFloat (Fin ya))" "f b = Inr (PyFloat (Fin yb))"
    by (auto simp: definido_iff)
  let ?pts = "linspace a b n"
  from True assms have "\<not> fst (verificar_puntos f ?pts [a, b])"
    by (simp add: verificar_puntos_fst)
  then obtain t2 where t2: "verificar_puntos f ?pts [a, b] = (False, t2)"
    by (cases "verificar_puntos f ?pts [a, b]") auto
  have "set t2 \<subseteq> set [a, b] \<union> set ?pts"
    using verificar_puntos_sub[of f ?pts "[a, b]"] t2 by simp
  then show ?thesis using y t2
    by (auto simp: verificar_dominio_traza_def)
qed

lemma vd_pasa:
  assumes da: "definido (f a)" and db: "definido (f b)"
    and dp: "\<forall>x\<in>set (linspace a b n). definido (f x)"
  shows "verificar_dominio_traza n f a b tolerancia =
       (case verificar_sospechosos f (linspace a b n) (indices_de f (linspace a b n))
               ([a, b] @ linspace a b n @ linspace a b n) of
          (Inl e, t4) \<Rightarrow> (Inl e, t4)
        | (Inr False, t4) \<Rightarrow> (Inr False, t4)
        | (Inr True, t4) \<Rightarrow>
            (case verificar_especiales f a b tolerancia (remdups (puntos_especiales a b)) t4 of
               (ok, t5) \<Rightarrow> (Inr ok, t5)))"
proof -
  let ?pts = "linspace a b n"
  obtain ya yb where y: "f a = Inr (PyFloat (Fin ya))" "f b = Inr (PyFloat (Fin yb))"
    using da db by (auto simp: definido_iff)
  have "fst (verificar_puntos f ?pts [a, b])" using dp by (simp add: verificar_puntos_fst)
  then have vp: "verificar_puntos f ?pts [a, b] = (True, [a, b] @ ?pts)"
    using verificar_puntos_snd[of f ?pts "[a, b]"] by (simp add: prod_eq_iff)
  have ev: "evaluar_lista f ?pts ([a, b] @ ?pts) = (Inr (valores_de f ?pts), ([a, b] @ ?pts) @ ?pts)"
    by (rule evaluar_lista_definido[OF dp])
  from np_diff_flotantes[OF valores_de_flotantes[OF dp]] obtain ds where
    ds: "np_diff (valores_de f ?pts) = Inr ds" by blast
  show ?thesis
    using y vp ev ds
    by (simp add: verificar_dominio_traza_def Let_def indices_de_def)
qed

lemma vd_bool: "\<exists>v. fst (verificar_dominio_traza n f a b tolerancia) = Inr v"
proof (cases "definido (f a) \<and> definido (f b) \<and> (\<forall>x\<in>set (linspace a b n). definido (f x))")
  case False
  then show ?thesis using vd_falla[OF False] by blast
next
  case True
  define indices where "indices = indices_de f (linspace a b n)"
  from True have idx: "\<forall>i\<in>set indices. i + 1 < length (linspace a b n)"
    using indices_de_lt[of "linspace a b n" f] by (auto simp: indices_def)
  from True have
    eq: "verificar_dominio_traza n f a b tolerancia =
       (case verificar_sospechosos f (linspace a b n) indices
               ([a, b] @ linspace a b n @ linspace a b n) of
          (Inl e, t4) \<Rightarrow> (Inl e, t4)
        | (Inr False, t4) \<Rightarrow> (Inr False, t4)
        | (Inr True, t4) \<Rightarrow>
            (case verificar_especiales f a b tolerancia (remdups (puntos_especiales a b)) t4 of
               (ok, t5) \<Rightarrow> (Inr ok, t5)))"
    using vd_pasa[of f a b n tolerancia] by (simp add: indices_def)
  from verificar_sospechosos_bool[OF idx] obtain v where
    "fst (verificar_sospechosos f (linspace a b n) indices
       ([a, b] @ linspace a b n @ linspace a b n)) = Inr v" by blast
  then show ?thesis unfolding eq
    by (auto split: prod.splits sum.splits bool.splits)
qed

lemma vd_True_definido:
  assumes r: "fst (verificar_dominio_traza n f a b tolerancia) = Inr True"
  shows "(\<forall>x\<in>set (snd (verificar_dominio_traza n f a b tolerancia)). definido (f x)) \<and>
     (\<forall>p\<in>set (puntos_especiales a b). \<forall>x\<in>sondas a b tolerancia p. definido (f x))"
proof -
  let ?pts = "linspace a b n"
  have d: "definido (f a) \<and> definido (f b) \<and> (\<forall>x\<in>set ?pts. definido (f x))"
    using vd_falla[of f a b n tolerancia] r by auto
  define indices where "indices = indices_de f ?pts"
  from d have idx: "\<forall>i\<in>set indices. i + 1 < length ?pts"
    using indices_de_lt[of ?pts f] by (auto simp: indices_def)
  from d have
    eq: "verificar_dominio_traza n f a b tolerancia =
       (case verificar_sospechosos f ?pts indices ([a, b] @ ?pts @ ?pts) of
          (Inl e, t4) \<Rightarrow> (Inl e, t4)
        | (Inr False, t4) \<Rightarrow> (Inr False, t4)
        | (Inr True, t4) \<Rightarrow>
            (case verificar_especiales f a b tolerancia (remdups (puntos_especiales a b)) t4 of
               (ok, t5) \<Rightarrow> (Inr ok, t5)))"
    using vd_pasa[of f a b n tolerancia] by (simp add: indices_def)
  obtain r4 t4 where s: "verificar_sospechosos f ?pts indices ([a, b] @ ?pts @ ?pts) = (r4, t4)"
    by (cases "verificar_sospechosos f ?pts indices ([a, b] @ ?pts @ ?pts)")
  obtain ok t5 where e:
    "verificar_especiales f a b tolerancia (remdups (puntos_especiales a b)) t4 = (ok, t5)"
    by (cases "verificar_especiales f a b tolerancia (remdups (puntos_especiales a b)) t4")
  have r4: "r4 = Inr True" and ok: "ok" and t: "snd (verificar_dominio_traza n f a b tolerancia) = t5"
    using r s e unfolding eq by (auto split: sum.splits bool.splits)
  have t0: "\<forall>x\<in>set ([a, b] @ ?pts @ ?pts). definido (f x)" using d by auto
  have t4d: "\<forall>x\<in>set t4. definido (f x)"
    using verificar_sospechosos_True[OF idx _ t0] s r4 by simp
  have sond: "\<forall>p\<in>set (remdups (puntos_especiales a b)). \<forall>x\<in>sondas a b tolerancia p. definido (f x)"
    using verificar_especiales_fst[of f a b tolerancia "remdups (puntos_especiales a b)" t4] e ok
    by simp
  have "set t5 = set t4 \<union> (\<Union>p\<in>set (remdups (puntos_especiales a b)). sondas a b tolerancia p)"
    using verificar_especiales_snd[of f a b tolerancia "remdups (puntos_especiales a b)" t4] e ok
    by simp
  then have "\<forall>x\<in>set t5. definido (f x)" using t4d sond by auto
  then show ?thesis using sond t by simp
qed


lemma vd_definido_True:
  assumes ab: "a \<le> b" and tol: "0 \<le> tolerancia"
    and d: "\<forall>x. a \<le> x \<and> x \<le> b \<longrightarrow> definido (f x)"
  shows "fst (verificar_dominio_traza n f a b tolerancia) = Inr True"
proof -
  let ?pts = "linspace a b n"
  have dp: "\<forall>x\<in>set ?pts. definido (f x)" using linspace_cota[OF ab] d by blast
  have da: "definido (f a)" and db: "definido (f b)" using d ab by auto
  define indices where "indices = indices_de f ?pts"
  have idx: "\<forall>i\<in>set indices. i + 1 < length ?pts"
    using indices_de_lt[OF dp] by (auto simp: indices_def)
  have
    eq: "verificar_dominio_traza n f a b tolerancia =
       (case verificar_sospechosos f ?pts indices ([a, b] @ ?pts @ ?pts) of
          (Inl e, t4) \<Rightarrow> (Inl e, t4)
        | (Inr False, t4) \<Rightarrow> (Inr False, t4)
        | (Inr True, t4) \<Rightarrow>
            (case verificar_especiales f a b tolerancia (remdups (puntos_especiales a b)) t4 of
               (ok, t5) \<Rightarrow> (Inr ok, t5)))"
    using vd_pasa[OF da db dp, of tolerancia] by (simp add: indices_def)
  have fino: "definido (f x)"
    if i: "i \<in> set indices" and x: "x \<in> set (linspace (?pts ! i) (?pts ! Suc i) 100)" for i x
  proof -
    have i1: "i + 1 < n" using idx i by simp
    have li: "?pts ! i \<in> set ?pts" using i1 by (intro nth_mem) simp
    have lsi: "?pts ! Suc i \<in> set ?pts" using i1 by (intro nth_mem) simp
    have m: "?pts ! i \<le> ?pts ! Suc i" using linspace_mono[OF ab i1] by simp
    from linspace_cota[OF m x] linspace_cota[OF ab li] linspace_cota[OF ab lsi]
    have "a \<le> x \<and> x \<le> b" by linarith
    then show ?thesis using d by blast
  qed
  have s: "fst (verificar_sospechosos f ?pts indices ([a, b] @ ?pts @ ?pts)) = Inr True"
    by (rule verificar_sospechosos_definido[OF idx]) (use fino in blast)
  have "definido (f x)"
    if "p \<in> set (remdups (puntos_especiales a b))" "x \<in> sondas a b tolerancia p" for p x
  proof -
    have "a \<le> p \<and> p \<le> b" using that(1) by (simp only: set_remdups en_puntos_especiales)
    then have "a \<le> x \<and> x \<le> b" using sondas_cota[of a p b tolerancia x] tol that(2) by simp
    then show ?thesis using d by blast
  qed
  then have e: "fst (verificar_especiales f a b tolerancia (remdups (puntos_especiales a b)) t4)"
    for t4 by (simp only: verificar_especiales_fst) blast
  obtain t4 where s4: "verificar_sospechosos f ?pts indices ([a, b] @ ?pts @ ?pts) = (Inr True, t4)"
    using s by (cases "verificar_sospechosos f ?pts indices ([a, b] @ ?pts @ ?pts)") auto
  obtain t5 where e5:
    "verificar_especiales f a b tolerancia (remdups (puntos_especiales a b)) t4 = (True, t5)"
    using e[of t4]
    by (cases "verificar_especiales f a b tolerancia (remdups (puntos_especiales a b)) t4") auto
  show ?thesis using s4 e5 unfolding eq by simp
qed

lemma verificar_especiales_orden:
  "set ps = set qs \<Longrightarrow>
     fst (verificar_especiales f a b tolerancia ps traza) =
     fst (verificar_especiales f a b tolerancia qs traza')"
  by (simp only: verificar_especiales_fst)



text \<open>
  Claim C4.  The special points are exactly the integers in \<open>[a, b]\<close>, the fractions
  \<open>j / i\<close> with \<open>i\<close> in \<open>1..20\<close> and \<open>j\<close> in \<open>0..i\<close> that lie in \<open>[a, b]\<close> (the code stops
  at \<open>j = i - 1\<close>; \<open>j = i\<close> gives \<open>1\<close>, which is among the integers), and those of
  \<open>\<pi>\<close>, \<open>e\<close>, \<open>\<surd>2\<close>, \<open>\<surd>3\<close> that lie in \<open>[a, b]\<close>.  The special-point pass succeeds
  exactly when \<open>f\<close> is defined at every probe of every special point; it evaluates no point
  other than these probes, and all of them when it succeeds; and \<open>verificar_dominio\<close>
  returns \<open>False\<close> when some probe is undefined.
\<close>

theorem puntos_especiales_sondas:
  "set (puntos_especiales a b) =
     {p. a \<le> p \<and> p \<le> b \<and>
         (p \<in> \<int> \<or> (\<exists>i\<in>{1..20::nat}. \<exists>j\<in>{0..i}. p = real j / real i) \<or>
          p \<in> {pi, exp 1, sqrt 2, sqrt 3})} \<and>
   (fst (verificar_especiales f a b tolerancia (remdups (puntos_especiales a b)) traza) \<longleftrightarrow>
      (\<forall>p\<in>set (puntos_especiales a b). \<forall>x\<in>sondas a b tolerancia p. definido (f x))) \<and>
   set (snd (verificar_especiales f a b tolerancia (remdups (puntos_especiales a b)) traza)) \<subseteq>
      set traza \<union> (\<Union>p\<in>set (puntos_especiales a b). sondas a b tolerancia p) \<and>
   (fst (verificar_especiales f a b tolerancia (remdups (puntos_especiales a b)) traza) \<longrightarrow>
      set (snd (verificar_especiales f a b tolerancia (remdups (puntos_especiales a b)) traza)) =
      set traza \<union> (\<Union>p\<in>set (puntos_especiales a b). sondas a b tolerancia p)) \<and>
   ((\<exists>p\<in>set (puntos_especiales a b). \<exists>x\<in>sondas a b tolerancia p. \<not> definido (f x)) \<longrightarrow>
      verificar_dominio n f a b tolerancia = Inr False)"
proof (intro conjI impI)
  show "set (puntos_especiales a b) =
     {p. a \<le> p \<and> p \<le> b \<and>
         (p \<in> \<int> \<or> (\<exists>i\<in>{1..20::nat}. \<exists>j\<in>{0..i}. p = real j / real i) \<or>
          p \<in> {pi, exp 1, sqrt 2, sqrt 3})}"
    by (rule set_puntos_especiales)
next
  show "fst (verificar_especiales f a b tolerancia (remdups (puntos_especiales a b)) traza) \<longleftrightarrow>
      (\<forall>p\<in>set (puntos_especiales a b). \<forall>x\<in>sondas a b tolerancia p. definido (f x))"
    by (simp only: verificar_especiales_fst set_remdups)
next
  show "set (snd (verificar_especiales f a b tolerancia (remdups (puntos_especiales a b)) traza)) \<subseteq>
      set traza \<union> (\<Union>p\<in>set (puntos_especiales a b). sondas a b tolerancia p)"
    using verificar_especiales_sub[of f a b tolerancia "remdups (puntos_especiales a b)" traza]
    by (simp only: set_remdups)
next
  assume "fst (verificar_especiales f a b tolerancia (remdups (puntos_especiales a b)) traza)"
  from verificar_especiales_snd[OF this]
  show "set (snd (verificar_especiales f a b tolerancia (remdups (puntos_especiales a b)) traza)) =
      set traza \<union> (\<Union>p\<in>set (puntos_especiales a b). sondas a b tolerancia p)"
    by (simp only: set_remdups)
next
  assume h: "\<exists>p\<in>set (puntos_especiales a b). \<exists>x\<in>sondas a b tolerancia p. \<not> definido (f x)"
  obtain v where v: "verificar_dominio n f a b tolerancia = Inr v"
    using vd_bool[of n f a b tolerancia] by (auto simp: verificar_dominio_def)
  have "\<not> v"
  proof
    assume v
    then have "\<forall>p\<in>set (puntos_especiales a b). \<forall>x\<in>sondas a b tolerancia p. definido (f x)"
      using vd_True_definido[of n f a b tolerancia] v by (simp add: verificar_dominio_def)
    then show False using h by blast
  qed
  then show "verificar_dominio n f a b tolerancia = Inr False" using v by simp
qed

theorem puntos_especiales_sondas_witness:
  "(\<exists>p\<in>set (puntos_especiales (- 1) 1). \<exists>x\<in>sondas (- 1) 1 (1 / 1000000) p.
       \<not> definido (f_inversa x)) \<and>
   verificar_dominio 1000 f_inversa (- 1) 1 (1 / 1000000) = Inr False"
proof -
  note t = puntos_especiales_sondas[of "- 1" 1 f_inversa "1 / 1000000" "[]" 1000]
  have "(0::real) \<in> set (puntos_especiales (- 1) 1)"
    using t by simp
  moreover have "(0::real) \<in> sondas (- 1) 1 (1 / 1000000) 0" by (simp add: sondas_def)
  moreover have "\<not> definido (f_inversa 0)" by (simp add: definido_def f_inversa_def)
  ultimately have h: "\<exists>p\<in>set (puntos_especiales (- 1) 1). \<exists>x\<in>sondas (- 1) 1 (1 / 1000000) p.
       \<not> definido (f_inversa x)" by blast
  then show ?thesis using t by blast
qed

text \<open>
  Claim C5.  With the default tolerance \<open>1e-6\<close>, \<open>verificar_dominio\<close> returns \<open>False\<close> for
  \<open>f(x) = 1/x\<close> over \<open>[-1, 1]\<close> (the special point \<open>0\<close> is probed) and \<open>True\<close> for
  \<open>f(x) = x^2\<close> over \<open>[0, 10]\<close>, whatever the number of grid points.
\<close>

theorem verificar_dominio_ejemplos:
  "verificar_dominio n f_inversa (- 1) 1 (1 / 1000000) = Inr False \<and>
   verificar_dominio n f_cuadrado 0 10 (1 / 1000000) = Inr True"
proof
  have "(0::real) \<in> set (puntos_especiales (- 1) 1)"
    by (simp only: en_puntos_especiales) (simp add: py_int_def)
  moreover have "(0::real) \<in> sondas (- 1) 1 (1 / 1000000) 0" by (simp add: sondas_def)
  moreover have "\<not> definido (f_inversa 0)" by (simp add: definido_def f_inversa_def)
  ultimately have "\<not> (\<forall>p\<in>set (puntos_especiales (- 1) 1).
      \<forall>x\<in>sondas (- 1) 1 (1 / 1000000) p. definido (f_inversa x))" by blast
  then have "fst (verificar_dominio_traza n f_inversa (- 1) 1 (1 / 1000000)) \<noteq> Inr True"
    using vd_True_definido[of n f_inversa "- 1" 1 "1 / 1000000"] by blast
  then show "verificar_dominio n f_inversa (- 1) 1 (1 / 1000000) = Inr False"
    using vd_bool[of n f_inversa "- 1" 1 "1 / 1000000"]
    by (auto simp: verificar_dominio_def)
next
  have "\<forall>x. 0 \<le> x \<and> x \<le> 10 \<longrightarrow> definido (f_cuadrado x)"
    by (simp add: definido_def f_cuadrado_def)
  then show "verificar_dominio n f_cuadrado 0 10 (1 / 1000000) = Inr True"
    using vd_definido_True[of 0 10 "1 / 1000000" f_cuadrado n]
    by (simp add: verificar_dominio_def)
qed



end
